theory Spec2Isabelle
  imports Main "HOL-Library.Sublist" "HOL-Library.Word"
begin

section \<open>Python strings\<close>

text \<open>
  A Python \<open>str\<close> is a sequence of Unicode code points, so it is modelled as a list of
  natural numbers (\<open>ord\<close> of each character). The literals of \<open>app.py\<close> are written
  with the code points they have in the file: the bullet glyph literal of lines 124, 210
  and 216 is the three code points U+201A, U+00C4, U+00A2.
\<close>

type_synonym ustring = "nat list"

text \<open>\<open>str.isspace\<close> on one character: the code points Python treats as whitespace.\<close>

definition py_isspace :: "nat \<Rightarrow> bool" where
  "py_isspace c =
     ((9 \<le> c \<and> c \<le> 13) \<or> (28 \<le> c \<and> c \<le> 32) \<or> c = 133 \<or> c = 160 \<or> c = 5760
      \<or> (8192 \<le> c \<and> c \<le> 8202) \<or> c = 8232 \<or> c = 8233 \<or> c = 8239 \<or> c = 8287
      \<or> c = 12288)"

text \<open>\<open>s.strip()\<close>: leading and trailing whitespace removed.\<close>

definition strip :: "ustring \<Rightarrow> ustring" where
  "strip s = rev (dropWhile py_isspace (rev (dropWhile py_isspace s)))"

text \<open>\<open>s.startswith(p)\<close>.\<close>

definition startswith :: "ustring \<Rightarrow> ustring \<Rightarrow> bool" where
  "startswith s p = prefix p s"

text \<open>
  \<open>s.replace(old, new)\<close>: every non-overlapping occurrence of \<open>old\<close>, found from the
  left, is replaced; an empty \<open>old\<close> matches before every character and at the end.
\<close>

function str_replace :: "ustring \<Rightarrow> ustring \<Rightarrow> ustring \<Rightarrow> ustring" where
  "str_replace old new [] = (if old = [] then new else [])"
| "str_replace old new (c # cs) =
     (if old = [] then new @ c # str_replace old new cs
      else if prefix old (c # cs) then new @ str_replace old new (drop (length old) (c # cs))
      else c # str_replace old new cs)"
  by pat_completeness auto
termination
  by (relation "measure (\<lambda>(old, new, s). length s)") auto

text \<open>
  \<open>s.split(sep)\<close> for a non-empty separator: the pieces between the non-overlapping
  occurrences of \<open>sep\<close>, found from the left; the result is never empty. Python raises
  ValueError for an empty separator; \<open>app.py\<close> only passes the literals of lines 190,
  195 and 207, and the model leaves the string whole there.
\<close>

function str_split :: "ustring \<Rightarrow> ustring \<Rightarrow> ustring list" where
  "str_split sep [] = [[]]"
| "str_split sep (c # cs) =
     (if sep \<noteq> [] \<and> prefix sep (c # cs) then [] # str_split sep (drop (length sep) (c # cs))
      else (case str_split sep cs of [] \<Rightarrow> [[c]] | p # ps \<Rightarrow> (c # p) # ps))"
  by pat_completeness auto
termination
  by (relation "measure (\<lambda>(sep, s). length s)") auto

text \<open>\<open>s.split(sep, 1)\<close>: split at the first occurrence of \<open>sep\<close> only.\<close>

fun str_split1 :: "ustring \<Rightarrow> ustring \<Rightarrow> ustring list" where
  "str_split1 sep [] = [[]]"
| "str_split1 sep (c # cs) =
     (if sep \<noteq> [] \<and> prefix sep (c # cs) then [[], drop (length sep) (c # cs)]
      else (case str_split1 sep cs of [] \<Rightarrow> [[c]] | p # ps \<Rightarrow> (c # p) # ps))"

section \<open>Normalisation: \<open>clean_text_for_pdf\<close>\<close>

text \<open>
  The dictionary \<open>replacements\<close> of lines 123 to 132, in insertion order, with the keys
  as the file holds them. Lines 127 and 128 give the same key (the ASCII double quote
  mapped to itself), which a dictionary keeps once. On lines 129 and 130 the three
  apostrophes open and close a triple-quoted string, so the two lines form one entry whose
  key is the text between them (colon, space, double quote, apostrophe, double quote,
  comma, line feed, eight spaces) and whose value is the apostrophe.
\<close>

definition replacements :: "(ustring \<times> ustring) list" where
  "replacements =
     [([8218, 196, 162], [45]),
      ([8218, 196, 236], [45]),
      ([8218, 196, 238], [45]),
      ([34], [34]),
      ([58, 32, 34, 39, 34, 44, 10, 32, 32, 32, 32, 32, 32, 32, 32], [39]),
      ([8218, 196, 182], [46, 46, 46])]"

definition clean_text_for_pdf :: "ustring \<Rightarrow> ustring" where
  "clean_text_for_pdf text =
     filter (\<lambda>char. char < 128)
       (fold (\<lambda>(old, new) text. str_replace old new text) replacements text)"

section \<open>The document model\<close>

text \<open>
  ASCII literals of the source are written as Isabelle strings and converted to code
  points.
\<close>

definition ascii :: "string \<Rightarrow> ustring" where
  "ascii s = map of_char s"

text \<open>The three named styles added to the style sheet (lines 159 to 176).\<close>

datatype style = CustomTitle | CustomHeading | CustomBody

text \<open>
  The flowables the function puts on its \<open>story\<close>: \<open>Paragraph(text, style)\<close>,
  \<open>Spacer(width, height)\<close> and \<open>ListFlowable(items, bulletType, start)\<close>.
\<close>

datatype flowable =
    Paragraph ustring style
  | Spacer nat nat
  | ListFlowable "flowable list" ustring ustring

type_synonym pdf_bytes = "8 word list"

text \<open>
  The layout library is not part of the program and is taken as a parameter. Constructing
  a \<open>Paragraph\<close> parses its text as markup and may raise; \<open>paragraph_raises\<close> gives
  the message of that exception, if any. \<open>doc_build\<close> is \<open>SimpleDocTemplate.build\<close>
  followed by reading the buffer: the bytes of the document, or the message of the
  exception it raises.
\<close>

record engine =
  paragraph_raises :: "ustring \<Rightarrow> style \<Rightarrow> ustring option"
  doc_build :: "flowable list \<Rightarrow> ustring + pdf_bytes"

text \<open>
  The exceptions that can arise inside the \<open>try\<close> block: a missing key of
  \<open>user_data\<close>, or an exception of the layout library with its message.
\<close>

datatype exn = KeyError string | LibraryError ustring


definition new_Paragraph :: "engine \<Rightarrow> ustring \<Rightarrow> style \<Rightarrow> exn + flowable" where
  "new_Paragraph E text sty =
     (case paragraph_raises E text sty of
        Some reason \<Rightarrow> Inl (LibraryError reason)
      | None \<Rightarrow> Inr (Paragraph text sty))"

text \<open>\<open>user_data[k]\<close> raises KeyError for a missing key.\<close>

definition getitem :: "(string \<rightharpoonup> ustring) \<Rightarrow> string \<Rightarrow> exn + ustring" where
  "getitem user_data k = (case user_data k of None \<Rightarrow> Inl (KeyError k) | Some v \<Rightarrow> Inr v)"

section \<open>Rendering: \<open>create_cv_pdf\<close>\<close>

text \<open>
  Lines 208 to 221, the body of the loop over the lines of a section: the story with the
  block of one line appended. The second bullet marker is the literal of line 210, the
  bullet glyph literal followed by a space (four code points).
\<close>

definition add_line :: "engine \<Rightarrow> ustring \<Rightarrow> flowable list \<Rightarrow> exn + flowable list" where
  "add_line E line0 story =
     (let line = strip line0 in
      if line \<noteq> [] then
        if startswith line [45, 32] \<or> startswith line [8218, 196, 162, 32] then
          (let text = strip (drop 2 line) in
           case new_Paragraph E text CustomBody of
             Inl e \<Rightarrow> Inl e
           | Inr p \<Rightarrow> Inr (story @ [ListFlowable [p] (ascii ''bullet'') [8218, 196, 162]]))
        else
          (case new_Paragraph E line CustomBody of
             Inl e \<Rightarrow> Inl e
           | Inr p \<Rightarrow> Inr (story @ [p]))
      else Inr story)"

text \<open>Line 207: the loop over the lines, stopping at the first exception.\<close>

fun add_lines :: "engine \<Rightarrow> ustring list \<Rightarrow> flowable list \<Rightarrow> exn + flowable list" where
  "add_lines E [] story = Inr story"
| "add_lines E (line # lines) story =
     (case add_line E line story of
        Inl e \<Rightarrow> Inl e
      | Inr story' \<Rightarrow> add_lines E lines story')"

text \<open>
  Lines 193 to 223, the body of the loop over the fragments: the story with the heading,
  the blocks and the closing spacer of one fragment appended, or unchanged.
\<close>

definition add_section :: "engine \<Rightarrow> ustring \<Rightarrow> flowable list \<Rightarrow> exn + flowable list" where
  "add_section E section story =
     (if strip section \<noteq> [] then
        (let parts = str_split1 [10] (strip section) in
         if length parts > 1 then
           (let title = parts ! 0; content = parts ! 1;
                title = strip (str_replace [35] [] title) in
            case new_Paragraph E title CustomHeading of
              Inl e \<Rightarrow> Inl e
            | Inr p \<Rightarrow>
                (case add_lines E (str_split [10] (strip content)) (story @ [p]) of
                   Inl e \<Rightarrow> Inl e
                 | Inr story' \<Rightarrow> Inr (story' @ [Spacer 1 12])))
         else Inr story)
      else Inr story)"

text \<open>Line 192: the loop over the fragments.\<close>

fun add_sections :: "engine \<Rightarrow> ustring list \<Rightarrow> flowable list \<Rightarrow> exn + flowable list" where
  "add_sections E [] story = Inr story"
| "add_sections E (section # sections) story =
     (case add_section E section story of
        Inl e \<Rightarrow> Inl e
      | Inr story' \<Rightarrow> add_sections E sections story')"

text \<open>
  Lines 179 to 223: the story handed to \<open>doc.build\<close>. The header block is the name as
  title, the contact line and a spacer; the body is split at the literal of line 190
  (line feed, two number signs, space) and every fragment goes through the loop.
\<close>

definition cv_story :: "engine \<Rightarrow> (string \<rightharpoonup> ustring) \<Rightarrow> ustring \<Rightarrow> exn + flowable list" where
  "cv_story E user_data content =
     (case getitem user_data ''name'' of Inl e \<Rightarrow> Inl e | Inr name \<Rightarrow>
      case new_Paragraph E name CustomTitle of Inl e \<Rightarrow> Inl e | Inr p1 \<Rightarrow>
      case getitem user_data ''email'' of Inl e \<Rightarrow> Inl e | Inr email \<Rightarrow>
      case getitem user_data ''phone'' of Inl e \<Rightarrow> Inl e | Inr phone \<Rightarrow>
      case new_Paragraph E (email @ ascii '' | '' @ phone) CustomBody of Inl e \<Rightarrow> Inl e | Inr p2 \<Rightarrow>
      add_sections E (str_split [10, 35, 35, 32] content) [p1, p2, Spacer 1 12])"


text \<open>
  Two stand-ins for the layout library, used to run the function on concrete inputs: one
  that accepts every paragraph and returns the given bytes, one whose build step raises
  with the given message.
\<close>

definition accept_all :: "pdf_bytes \<Rightarrow> engine" where
  "accept_all pdf = \<lparr>paragraph_raises = (\<lambda>text sty. None), doc_build = (\<lambda>story. Inr pdf)\<rparr>"

definition build_fails :: "ustring \<Rightarrow> engine" where
  "build_fails reason =
     \<lparr>paragraph_raises = (\<lambda>text sty. None), doc_build = (\<lambda>story. Inl reason)\<rparr>"

text \<open>The header of the specification's worked example.\<close>

definition example_header :: "string \<rightharpoonup> ustring" where
  "example_header =
     [''name'' \<mapsto> ascii ''Jane Doe'', ''email'' \<mapsto> ascii ''jane@x.com'',
      ''phone'' \<mapsto> ascii ''555-1234'']"

section \<open>Facts about the string operations\<close>

lemma str_replace_same: "new = old \<Longrightarrow> str_replace old new s = s"
proof (induction old new s rule: str_replace.induct)
  case (1 old new)
  then show ?case by simp
next
  case (2 old new c cs)
  show ?case
  proof (cases "old = []")
    case True
    with 2 show ?thesis by simp
  next
    case False
    show ?thesis
    proof (cases "prefix old (c # cs)")
      case True
      then have "old @ drop (length old) (c # cs) = c # cs"
        by (metis append_eq_conv_conj prefixE)
      with 2 False True show ?thesis by simp
    next
      case np: False
      with 2 False show ?thesis by simp
    qed
  qed
qed

lemma str_replace_absent:
  "\<exists>c\<in>set old. c \<notin> set s \<Longrightarrow> str_replace old new s = s"
proof (induction old new s rule: str_replace.induct)
  case (1 old new)
  then show ?case by auto
next
  case (2 old new c cs)
  from "2.prems" have ne: "old \<noteq> []" by auto
  from "2.prems" have np: "\<not> prefix old (c # cs)"
    using set_mono_prefix by blast
  from "2.prems" have "\<exists>c\<in>set old. c \<notin> set cs" by auto
  with 2 ne np show ?case by simp
qed

lemma str_replace_remove:
  "old = [c] \<Longrightarrow> new = [] \<Longrightarrow> str_replace old new s = filter (\<lambda>x. x \<noteq> c) s"
  by (induction old new s rule: str_replace.induct) auto


lemma str_split1_absent: "c \<notin> set s \<Longrightarrow> str_split1 [c] s = [s]"
  by (induction s) auto

lemma str_split1_present:
  "c \<in> set s \<Longrightarrow>
   str_split1 [c] s = [takeWhile (\<lambda>x. x \<noteq> c) s, tl (dropWhile (\<lambda>x. x \<noteq> c) s)]"
  by (induction s) (auto simp: str_split1_absent)

lemma set_strip: "set (strip s) \<subseteq> set s"
  unfolding strip_def by (metis set_rev set_dropWhileD subsetI)





section \<open>Facts about the loops\<close>

text \<open>Unfolding everything evaluates the functions on concrete inputs.\<close>

lemmas run_defs = cv_story_def getitem_def add_section_def add_line_def new_Paragraph_def
  accept_all_def build_fails_def strip_def py_isspace_def ascii_def startswith_def Let_def
  example_header_def

text \<open>Every loop only appends to the story.\<close>

lemma add_line_appends: "add_line E l s = Inr s' \<Longrightarrow> \<exists>m. s' = s @ m"
  by (auto simp: add_line_def Let_def split: if_splits sum.splits)

lemma add_lines_appends: "add_lines E ls s = Inr s' \<Longrightarrow> \<exists>m. s' = s @ m"
proof (induction ls arbitrary: s)
  case Nil
  then show ?case by simp
next
  case (Cons l ls)
  then obtain s1 where a: "add_line E l s = Inr s1" and b: "add_lines E ls s1 = Inr s'"
    by (auto split: sum.splits)
  from a obtain m1 where "s1 = s @ m1" using add_line_appends by blast
  moreover from b obtain m2 where "s' = s1 @ m2" using Cons.IH by blast
  ultimately show ?case by simp
qed




text \<open>A fragment of two lines or more: its first line is the heading, the rest its content.\<close>

lemma add_section_heading:
  assumes "10 \<in> set (strip section)"
  shows "add_section E section story =
     (case new_Paragraph E
             (strip (filter (\<lambda>c. c \<noteq> 35) (takeWhile (\<lambda>c. c \<noteq> 10) (strip section))))
             CustomHeading of
        Inl e \<Rightarrow> Inl e
      | Inr p \<Rightarrow>
          (case add_lines E
                  (str_split [10] (strip (tl (dropWhile (\<lambda>c. c \<noteq> 10) (strip section)))))
                  (story @ [p]) of
             Inl e \<Rightarrow> Inl e
           | Inr story' \<Rightarrow> Inr (story' @ [Spacer 1 12])))"
proof -
  from assms have ne: "strip section \<noteq> []" by auto
  show ?thesis
    using ne by (simp add: add_section_def Let_def str_split1_present [OF assms]
        str_replace_remove)
qed

lemma add_section_heading_first:
  assumes "10 \<in> set (strip section)"
    and "add_section E section story = Inr story'"
  shows "\<exists>more. story' = story @
           Paragraph (strip (filter (\<lambda>c. c \<noteq> 35) (takeWhile (\<lambda>c. c \<noteq> 10) (strip section))))
             CustomHeading # more"
proof -
  let ?t = "strip (filter (\<lambda>c. c \<noteq> 35) (takeWhile (\<lambda>c. c \<noteq> 10) (strip section)))"
  let ?ls = "str_split [10] (strip (tl (dropWhile (\<lambda>c. c \<noteq> 10) (strip section))))"
  from assms(2) add_section_heading [OF assms(1), of E story]
  obtain s1 where p: "new_Paragraph E ?t CustomHeading = Inr (Paragraph ?t CustomHeading)"
    and l: "add_lines E ?ls (story @ [Paragraph ?t CustomHeading]) = Inr s1"
    and e: "story' = s1 @ [Spacer 1 12]"
    by (auto simp: new_Paragraph_def split: sum.splits option.splits)
  from l obtain m where "s1 = (story @ [Paragraph ?t CustomHeading]) @ m"
    using add_lines_appends by blast
  with e show ?thesis by simp
qed

section \<open>Normalisation of plain text\<close>

text \<open>
  ASCII text without a line feed is returned as it is: no key of the table occurs in it,
  except the double quote, which is replaced by itself, and the filter keeps every
  character.
\<close>

lemma clean_text_for_pdf_ascii_no_line_feed:
  assumes "\<forall>c\<in>set text. c < 128" and "10 \<notin> set text"
  shows "clean_text_for_pdf text = text"
proof -
  have hi: "8218 \<notin> set text" using assms(1) by fastforce
  have r1: "str_replace (8218 # k) new text = text" for k new
    by (rule str_replace_absent) (use hi in simp)
  have r2: "str_replace [58, 32, 34, 39, 34, 44, 10, 32, 32, 32, 32, 32, 32, 32, 32] new text
              = text" for new
    by (rule str_replace_absent) (use assms(2) in simp)
  have r3: "str_replace [34] [34] text = text"
    by (rule str_replace_same) simp
  have f: "filter (\<lambda>char. char < 128) text = text"
    using assms(1) by (auto intro!: filter_True)
  show ?thesis
    by (simp add: clean_text_for_pdf_def replacements_def r1 r2 r3 f)
qed

text \<open>
  Claim C9. Normalising text that is already pure ASCII should return the identical
  string. The code does not: the key formed by lines 129 and 130 is pure ASCII and is
  replaced by an apostrophe. The text made of a colon, a space and a double quote, then
  that key, then a double quote, a comma, a line feed and eight spaces is normalised to
  the key itself, and normalising that output again gives the apostrophe, so
  normalisation is not idempotent on its own output.
\<close>

theorem clean_text_for_pdf_changes_ascii_text:
  "clean_text_for_pdf [58, 32, 34, 39, 34, 44, 10, 32, 32, 32, 32, 32, 32, 32, 32] = [39]
   \<and> clean_text_for_pdf
        ([58, 32, 34] @ [58, 32, 34, 39, 34, 44, 10, 32, 32, 32, 32, 32, 32, 32, 32]
         @ [34, 44, 10, 32, 32, 32, 32, 32, 32, 32, 32])
       = [58, 32, 34, 39, 34, 44, 10, 32, 32, 32, 32, 32, 32, 32, 32]
   \<and> clean_text_for_pdf (clean_text_for_pdf
        ([58, 32, 34] @ [58, 32, 34, 39, 34, 44, 10, 32, 32, 32, 32, 32, 32, 32, 32]
         @ [34, 44, 10, 32, 32, 32, 32, 32, 32, 32, 32]))
       \<noteq> clean_text_for_pdf
        ([58, 32, 34] @ [58, 32, 34, 39, 34, 44, 10, 32, 32, 32, 32, 32, 32, 32, 32]
         @ [34, 44, 10, 32, 32, 32, 32, 32, 32, 32, 32])"
  by (simp add: clean_text_for_pdf_def replacements_def)

section \<open>Fragments of one line\<close>

text \<open>
  Claim C10. A fragment whose stripped text contains no line feed adds nothing to the
  story: no heading, no block and no spacer.
\<close>

theorem add_section_single_line_emits_nothing:
  assumes "10 \<notin> set (strip section)"
  shows "add_section E section story = Inr story"
  using assms by (simp add: add_section_def Let_def str_split1_absent)

theorem add_section_single_line_emits_nothing_witness:
  "10 \<notin> set (strip [32, 83, 107, 105, 108, 108, 115, 10])
   \<and> add_section (accept_all []) [32, 83, 107, 105, 108, 108, 115, 10] [Spacer 1 12]
       = Inr [Spacer 1 12]"
  using add_section_single_line_emits_nothing
    [of "[32, 83, 107, 105, 108, 108, 115, 10]" "accept_all []" "[Spacer 1 12]"]
  by (simp add: strip_def py_isspace_def)

section \<open>A body without heading delimiters\<close>




section \<open>Normalisation and rendering\<close>




section \<open>The first fragment\<close>




section \<open>Failures\<close>




section \<open>Bullet lines and paragraphs\<close>

text \<open>
  A trimmed line that starts with the glyph marker is emitted as a bullet item, not as a
  paragraph holding the trimmed line; and the line made of a hyphen and a space is trimmed
  to the hyphen before the test, so it is emitted as a paragraph. Claim C5 has neither.
\<close>

theorem add_line_glyph_marker_counterexample:
  "add_line (accept_all []) [8218, 196, 162, 32, 71, 111] []
     = Inr [ListFlowable [Paragraph [162, 32, 71, 111] CustomBody] (ascii ''bullet'')
              [8218, 196, 162]]
   \<and> add_line (accept_all []) [8218, 196, 162, 32, 71, 111] []
     \<noteq> Inr [Paragraph [8218, 196, 162, 32, 71, 111] CustomBody]
   \<and> add_line (accept_all []) [45, 32] [] = Inr [Paragraph [45] CustomBody]"
  by (simp add: add_line_def new_Paragraph_def accept_all_def strip_def
      py_isspace_def startswith_def Let_def)

text \<open>
  Claim C5, as the code has it. For a content line that is not blank, the test is made on
  the trimmed line. When the trimmed line starts with a hyphen and a space, the block is a
  bullet item whose text is the trimmed line without its first two characters, trimmed
  again. When it starts with the glyph marker and a space, the block is a bullet item as
  well. Every other line gives a paragraph holding the trimmed line. All hold when the
  library accepts the paragraph.
\<close>

theorem add_line_block:
  assumes "strip line \<noteq> []"
  shows "(startswith (strip line) [45, 32] \<longrightarrow>
            paragraph_raises E (strip (drop 2 (strip line))) CustomBody = None \<longrightarrow>
            add_line E line story =
              Inr (story @ [ListFlowable [Paragraph (strip (drop 2 (strip line))) CustomBody]
                              (ascii ''bullet'') [8218, 196, 162]]))
       \<and> (startswith (strip line) [8218, 196, 162, 32] \<longrightarrow>
            (\<forall>story'. add_line E line story = Inr story' \<longrightarrow>
               (\<exists>text. story' = story @ [ListFlowable [Paragraph text CustomBody]
                                            (ascii ''bullet'') [8218, 196, 162]])))
       \<and> (\<not> startswith (strip line) [45, 32] \<longrightarrow>
            \<not> startswith (strip line) [8218, 196, 162, 32] \<longrightarrow>
            paragraph_raises E (strip line) CustomBody = None \<longrightarrow>
            add_line E line story = Inr (story @ [Paragraph (strip line) CustomBody]))"
  using assms
  by (auto simp: add_line_def Let_def new_Paragraph_def split: option.splits)

theorem add_line_block_witness:
  "strip [32, 45, 32, 32, 71, 111, 32] \<noteq> []
   \<and> startswith (strip [32, 45, 32, 32, 71, 111, 32]) [45, 32]
   \<and> paragraph_raises (accept_all [])
        (strip (drop 2 (strip [32, 45, 32, 32, 71, 111, 32]))) CustomBody = None
   \<and> add_line (accept_all []) [32, 45, 32, 32, 71, 111, 32] []
       = Inr [ListFlowable [Paragraph [71, 111] CustomBody] (ascii ''bullet'') [8218, 196, 162]]
   \<and> strip [8218, 196, 162, 32, 71, 111] \<noteq> []
   \<and> startswith (strip [8218, 196, 162, 32, 71, 111]) [8218, 196, 162, 32]
   \<and> (\<exists>story' text. add_line (accept_all []) [8218, 196, 162, 32, 71, 111] [] = Inr story'
         \<and> story' = [] @ [ListFlowable [Paragraph text CustomBody] (ascii ''bullet'')
                             [8218, 196, 162]])
   \<and> strip [32, 71, 111, 32] \<noteq> []
   \<and> \<not> startswith (strip [32, 71, 111, 32]) [45, 32]
   \<and> \<not> startswith (strip [32, 71, 111, 32]) [8218, 196, 162, 32]
   \<and> paragraph_raises (accept_all []) (strip [32, 71, 111, 32]) CustomBody = None
   \<and> add_line (accept_all []) [32, 71, 111, 32] [] = Inr [Paragraph [71, 111] CustomBody]"
proof -
  have g: "\<exists>s. add_line (accept_all []) [8218, 196, 162, 32, 71, 111] [] = Inr s"
    by (simp add: add_line_def new_Paragraph_def accept_all_def strip_def py_isspace_def
        startswith_def Let_def)
  then obtain s where s: "add_line (accept_all []) [8218, 196, 162, 32, 71, 111] [] = Inr s"
    by blast
  have n: "strip [8218, 196, 162, 32, 71, 111] \<noteq> []"
    and m: "startswith (strip [8218, 196, 162, 32, 71, 111]) [8218, 196, 162, 32]"
    by (simp_all add: strip_def py_isspace_def startswith_def)
  from add_line_block [OF n, of "accept_all []" "[]"] m s
  have "\<exists>text. s = [] @ [ListFlowable [Paragraph text CustomBody] (ascii ''bullet'')
                             [8218, 196, 162]]"
    by blast
  with s have glyph: "\<exists>story' text. add_line (accept_all []) [8218, 196, 162, 32, 71, 111] []
           = Inr story'
         \<and> story' = [] @ [ListFlowable [Paragraph text CustomBody] (ascii ''bullet'')
                             [8218, 196, 162]]"
    by blast
  from add_line_block [of "[32, 45, 32, 32, 71, 111, 32]" "accept_all []" "[]"]
    add_line_block [of "[32, 71, 111, 32]" "accept_all []" "[]"]
  have rest: "strip [32, 45, 32, 32, 71, 111, 32] \<noteq> []
   \<and> startswith (strip [32, 45, 32, 32, 71, 111, 32]) [45, 32]
   \<and> paragraph_raises (accept_all [])
        (strip (drop 2 (strip [32, 45, 32, 32, 71, 111, 32]))) CustomBody = None
   \<and> add_line (accept_all []) [32, 45, 32, 32, 71, 111, 32] []
       = Inr [ListFlowable [Paragraph [71, 111] CustomBody] (ascii ''bullet'') [8218, 196, 162]]
   \<and> strip [32, 71, 111, 32] \<noteq> []
   \<and> \<not> startswith (strip [32, 71, 111, 32]) [45, 32]
   \<and> \<not> startswith (strip [32, 71, 111, 32]) [8218, 196, 162, 32]
   \<and> paragraph_raises (accept_all []) (strip [32, 71, 111, 32]) CustomBody = None
   \<and> add_line (accept_all []) [32, 71, 111, 32] [] = Inr [Paragraph [71, 111] CustomBody]"
    by (simp add: strip_def py_isspace_def startswith_def accept_all_def)
  from rest glyph n m show ?thesis by blast
qed

section \<open>Section titles\<close>

text \<open>
  The title is cleaned with \<open>replace\<close>, which removes every number sign: the heading
  of a fragment whose first line is \<open>C# Developer\<close> is \<open>C Developer\<close>, where
  claim C6 keeps the number sign inside the title.
\<close>

theorem add_section_title_counterexample:
  "add_section (accept_all []) (ascii ''C# Developer\<newline>Builds things.'') []
     = Inr [Paragraph (ascii ''C Developer'') CustomHeading,
            Paragraph (ascii ''Builds things.'') CustomBody, Spacer 1 12]
   \<and> add_section (accept_all []) (ascii ''C# Developer\<newline>Builds things.'') []
     \<noteq> Inr [Paragraph (ascii ''C# Developer'') CustomHeading,
            Paragraph (ascii ''Builds things.'') CustomBody, Spacer 1 12]"
  by (simp add: run_defs)

text \<open>
  Claim C6, as the code has it. For a fragment of two lines or more, the heading appended
  to the story is the first line of the trimmed fragment with every number sign removed,
  wherever it stands, and the surrounding whitespace stripped.
\<close>

theorem add_section_title_removes_every_hash:
  assumes "10 \<in> set (strip section)"
    and "add_section E section story = Inr story'"
  shows "\<exists>more. story' = story @
           Paragraph (strip (filter (\<lambda>c. c \<noteq> 35) (takeWhile (\<lambda>c. c \<noteq> 10) (strip section))))
             CustomHeading # more"
  using assms by (rule add_section_heading_first)

theorem add_section_title_removes_every_hash_witness:
  "10 \<in> set (strip (ascii ''C# Developer\<newline>Builds things.''))
   \<and> (\<exists>more. [Paragraph (ascii ''C Developer'') CustomHeading,
            Paragraph (ascii ''Builds things.'') CustomBody, Spacer 1 12] = [] @
           Paragraph (strip (filter (\<lambda>c. c \<noteq> 35) (takeWhile (\<lambda>c. c \<noteq> 10)
              (strip (ascii ''C# Developer\<newline>Builds things.''))))) CustomHeading # more)"
proof -
  have a: "10 \<in> set (strip (ascii ''C# Developer\<newline>Builds things.''))"
    by (simp add: strip_def py_isspace_def ascii_def)
  have b: "add_section (accept_all []) (ascii ''C# Developer\<newline>Builds things.'') []
     = Inr [Paragraph (ascii ''C Developer'') CustomHeading,
            Paragraph (ascii ''Builds things.'') CustomBody, Spacer 1 12]"
    by (simp add: run_defs)
  from add_section_title_removes_every_hash [OF a b] a show ?thesis by blast
qed

section \<open>A blank body\<close>



section \<open>Effects\<close>




end
